theory Spec2Isabelle
  imports Main "HOL-Library.Sublist"
begin

section \<open>MPS compatibility wrappers (src/utils/mps\_compat.py)\<close>

text \<open>
  The module wraps four operators of the tensor library (\<open>matmul\<close>, \<open>bmm\<close>, \<open>mm\<close>,
  \<open>einsum\<close>). Each wrapper asks \<open>_needs_cpu_fallback\<close> whether the first operand lives on
  an \<open>mps\<close> device while some operand has dtype \<open>complex64\<close> or \<open>complex128\<close>; if so it
  calls \<open>.cpu()\<close> on every operand, applies the operator to the CPU tensors and sends the
  result to the first operand's device with \<open>.to(device)\<close>; otherwise it applies the
  operator to the operands as given.

  The wrappers are embedded as state transformers over a world that holds the tensor
  objects (so that identity, copies and mutation can be spoken about) and the sequence of
  library calls made so far. The numerical kernels of the library are not part of the
  module; they enter as a parameter.
\<close>

subsection \<open>Data model\<close>

text \<open>The dtypes of the tensor library; three of them hold complex numbers.\<close>

datatype dtype =
  float16 | bfloat16 | float32 | float64
  | complex32 | complex64 | complex128
  | uint8 | int8 | int16 | int32 | int64 | boolean

fun is_complex :: "dtype \<Rightarrow> bool" where
  "is_complex complex32 = True"
| "is_complex complex64 = True"
| "is_complex complex128 = True"
| "is_complex _ = False"

text \<open>\<open>torch.device\<close>: a type string (\<open>cpu\<close>, \<open>mps\<close>, \<open>cuda\<close>, ...) and an optional ordinal.\<close>

record device =
  type :: string
  index :: "nat option"

text \<open>
  What the module reads of a tensor object: its device and its dtype. The numbers it holds
  (with their shape) are the payload \<open>data\<close>, of a type the module never inspects.
\<close>

record 'v tensor =
  device :: device
  dtype :: dtype
  data :: 'v

text \<open>The four operators that are wrapped; \<open>einsum\<close> carries its equation string.\<close>

datatype op = Matmul | Bmm | Mm | Einsum string

text \<open>
  Exceptions. \<open>ValueError\<close> is what the module raises itself; whatever an operator of the
  library raises passes through the wrappers untouched and is recorded as \<open>TorchError\<close>
  with the library's message.
\<close>

datatype error = ValueError string | TorchError string

text \<open>
  A kernel is the numerical behaviour of the library: for an operator and the operand
  tensors it either raises (left, with a message) or yields the result tensor.
\<close>

type_synonym 'v kernel = "op \<Rightarrow> 'v tensor list \<Rightarrow> string + 'v tensor"

text \<open>A library call as seen from outside, with the tensors it was applied to.\<close>

datatype 'v call =
  CallCpu "'v tensor"
  | CallTo "'v tensor" device
  | CallNative op "'v tensor list"

text \<open>
  Tensor objects are referred to by their position in the heap. Objects are only ever
  added: neither the module nor the library calls it makes update an object in place.
\<close>

type_synonym ref = nat

record 'v world =
  heap :: "'v tensor list"
  calls :: "'v call list"

subsection \<open>The library operations the module calls\<close>

text \<open>
  These follow the documented behaviour of the tensor library, which is not part of the
  repository: \<open>Tensor.cpu()\<close> returns the object itself when it already is in CPU memory
  and a copy on the CPU otherwise; \<open>Tensor.to(device)\<close> returns the object itself when it
  already is on that device and a copy there otherwise; an operator reads its operands
  and returns a new tensor object, or raises.
\<close>

definition cpu_device :: device where
  "cpu_device = \<lparr>type = ''cpu'', index = None\<rparr>"

definition alloc :: "'v tensor \<Rightarrow> 'v world \<Rightarrow> ref \<times> 'v world" where
  "alloc t w = (length (heap w), w\<lparr>heap := heap w @ [t]\<rparr>)"

definition log_call :: "'v call \<Rightarrow> 'v world \<Rightarrow> 'v world" where
  "log_call c w = w\<lparr>calls := calls w @ [c]\<rparr>"

definition on_cpu :: "'v tensor \<Rightarrow> 'v tensor" where
  "on_cpu t = (if type (device t) = ''cpu'' then t else t\<lparr>device := cpu_device\<rparr>)"

definition tensor_cpu :: "ref \<Rightarrow> 'v world \<Rightarrow> ref \<times> 'v world" where
  "tensor_cpu r w =
     (let t = heap w ! r; w1 = log_call (CallCpu t) w
      in if type (device t) = ''cpu'' then (r, w1)
         else alloc (t\<lparr>device := cpu_device\<rparr>) w1)"

definition tensor_to :: "ref \<Rightarrow> device \<Rightarrow> 'v world \<Rightarrow> ref \<times> 'v world" where
  "tensor_to r d w =
     (let t = heap w ! r; w1 = log_call (CallTo t d) w
      in if device t = d then (r, w1)
         else alloc (t\<lparr>device := d\<rparr>) w1)"

definition native :: "'v kernel \<Rightarrow> op \<Rightarrow> ref list \<Rightarrow> 'v world \<Rightarrow> (error + ref) \<times> 'v world" where
  "native K f rs w =
     (let ts = map (\<lambda>r. heap w ! r) rs; w1 = log_call (CallNative f ts) w
      in case K f ts of
           Inl msg \<Rightarrow> (Inl (TorchError msg), w1)
         | Inr t \<Rightarrow> (let (r, w2) = alloc t w1 in (Inr r, w2)))"

subsection \<open>The module\<close>

text \<open>The loop of \<open>_needs_cpu_fallback\<close> over its tensors.\<close>

fun any_complex :: "'v tensor list \<Rightarrow> bool" where
  "any_complex [] = False"
| "any_complex (t # ts) =
     (if dtype t \<in> set [complex64, complex128] then True else any_complex ts)"

definition needs_cpu_fallback :: "device \<Rightarrow> 'v tensor list \<Rightarrow> bool" where
  "needs_cpu_fallback dev tensors =
     (if type dev \<noteq> ''mps'' then False else any_complex tensors)"

text \<open>The list comprehension \<open>[op.cpu() for op in operands]\<close>, left to right.\<close>

fun cpu_all :: "ref list \<Rightarrow> 'v world \<Rightarrow> ref list \<times> 'v world" where
  "cpu_all [] w = ([], w)"
| "cpu_all (r # rs) w =
     (let (r', w1) = tensor_cpu r w; (rs', w2) = cpu_all rs w1 in (r' # rs', w2))"

text \<open>
  The wrappers. An exception of the operator leaves the function at once, so
  \<open>result.to(device)\<close> runs only when the operator returned.
\<close>

definition mps_matmul :: "'v kernel \<Rightarrow> ref \<Rightarrow> ref \<Rightarrow> 'v world \<Rightarrow> (error + ref) \<times> 'v world" where
  "mps_matmul K a b w =
     (if needs_cpu_fallback (device (heap w ! a)) [heap w ! a, heap w ! b] then
        let dev = device (heap w ! a);
            (a', w1) = tensor_cpu a w;
            (b', w2) = tensor_cpu b w1;
            (result, w3) = native K Matmul [a', b'] w2
        in case result of
             Inl e \<Rightarrow> (Inl e, w3)
           | Inr r \<Rightarrow> (let (r', w4) = tensor_to r dev w3 in (Inr r', w4))
      else native K Matmul [a, b] w)"

definition mps_einsum ::
  "'v kernel \<Rightarrow> string \<Rightarrow> ref list \<Rightarrow> 'v world \<Rightarrow> (error + ref) \<times> 'v world" where
  "mps_einsum K equation operands w =
     (if operands = [] then (Inl (ValueError ''No operands provided to mps_einsum''), w)
      else if needs_cpu_fallback (device (heap w ! (operands ! 0)))
                (map (\<lambda>r. heap w ! r) operands) then
        let dev = device (heap w ! (operands ! 0));
            (cpu_operands, w1) = cpu_all operands w;
            (result, w2) = native K (Einsum equation) cpu_operands w1
        in case result of
             Inl e \<Rightarrow> (Inl e, w2)
           | Inr r \<Rightarrow> (let (r', w3) = tensor_to r dev w2 in (Inr r', w3))
      else native K (Einsum equation) operands w)"

definition mps_bmm :: "'v kernel \<Rightarrow> ref \<Rightarrow> ref \<Rightarrow> 'v world \<Rightarrow> (error + ref) \<times> 'v world" where
  "mps_bmm K a b w =
     (if needs_cpu_fallback (device (heap w ! a)) [heap w ! a, heap w ! b] then
        let dev = device (heap w ! a);
            (a', w1) = tensor_cpu a w;
            (b', w2) = tensor_cpu b w1;
            (result, w3) = native K Bmm [a', b'] w2
        in case result of
             Inl e \<Rightarrow> (Inl e, w3)
           | Inr r \<Rightarrow> (let (r', w4) = tensor_to r dev w3 in (Inr r', w4))
      else native K Bmm [a, b] w)"

definition mps_mm :: "'v kernel \<Rightarrow> ref \<Rightarrow> ref \<Rightarrow> 'v world \<Rightarrow> (error + ref) \<times> 'v world" where
  "mps_mm K a b w =
     (if needs_cpu_fallback (device (heap w ! a)) [heap w ! a, heap w ! b] then
        let dev = device (heap w ! a);
            (a', w1) = tensor_cpu a w;
            (b', w2) = tensor_cpu b w1;
            (result, w3) = native K Mm [a', b'] w2
        in case result of
             Inl e \<Rightarrow> (Inl e, w3)
           | Inr r \<Rightarrow> (let (r', w4) = tensor_to r dev w3 in (Inr r', w4))
      else native K Mm [a, b] w)"

text \<open>\<open>contract = mps_einsum\<close>: a second name for the same function.\<close>

definition contract ::
  "'v kernel \<Rightarrow> string \<Rightarrow> ref list \<Rightarrow> 'v world \<Rightarrow> (error + ref) \<times> 'v world" where
  "contract = mps_einsum"

subsection \<open>Observations on a call\<close>

text \<open>
  A wrapper call started in world \<open>w\<close> ends with an error or a reference, and a new world.
  Its outcome is the error or the tensor that the returned reference denotes; its new calls
  are the library calls it made.
\<close>

definition outcome :: "(error + ref) \<times> 'v world \<Rightarrow> error + 'v tensor" where
  "outcome x = (case fst x of Inl e \<Rightarrow> Inl e | Inr r \<Rightarrow> Inr (heap (snd x) ! r))"

definition new_calls :: "'v world \<Rightarrow> (error + ref) \<times> 'v world \<Rightarrow> 'v call list" where
  "new_calls w x = drop (length (calls w)) (calls (snd x))"

text \<open>The fallback path is the one that starts by asking for a CPU copy.\<close>

definition took_fallback :: "'v world \<Rightarrow> (error + ref) \<times> 'v world \<Rightarrow> bool" where
  "took_fallback w x = (case new_calls w x of CallCpu _ # _ \<Rightarrow> True | _ \<Rightarrow> False)"

text \<open>What the operator itself yields on given tensors, as an outcome.\<close>

definition kernel_outcome :: "'v kernel \<Rightarrow> op \<Rightarrow> 'v tensor list \<Rightarrow> error + 'v tensor" where
  "kernel_outcome K f ts = (case K f ts of Inl msg \<Rightarrow> Inl (TorchError msg) | Inr t \<Rightarrow> Inr t)"

definition moved_to :: "device \<Rightarrow> error + 'v tensor \<Rightarrow> error + 'v tensor" where
  "moved_to d x = (case x of Inl e \<Rightarrow> Inl e | Inr t \<Rightarrow> Inr (t\<lparr>device := d\<rparr>))"

definition tensors_of :: "'v world \<Rightarrow> ref list \<Rightarrow> 'v tensor list" where
  "tensors_of w rs = map (\<lambda>r. heap w ! r) rs"

definition valid_refs :: "'v world \<Rightarrow> ref list \<Rightarrow> bool" where
  "valid_refs w rs = list_all (\<lambda>r. r < length (heap w)) rs"

text \<open>
  The fallback branch is the same in the four wrappers up to the operator: CPU copies of
  all operands, the operator on them, the result sent to the first operand's device.
\<close>

definition fallback_path ::
  "'v kernel \<Rightarrow> op \<Rightarrow> ref list \<Rightarrow> 'v world \<Rightarrow> (error + ref) \<times> 'v world" where
  "fallback_path K f operands w =
     (let dev = device (heap w ! (operands ! 0));
          (cpu_operands, w1) = cpu_all operands w;
          (result, w2) = native K f cpu_operands w1
      in case result of
           Inl e \<Rightarrow> (Inl e, w2)
         | Inr r \<Rightarrow> (let (r', w3) = tensor_to r dev w2 in (Inr r', w3)))"

subsection \<open>Example worlds\<close>

text \<open>
  A kernel for the examples, over natural numbers as payload. Like the operators of the
  tensor library it refuses operands that are on different devices; otherwise it puts the
  product of the payloads on the operands' device.
\<close>

definition strict_kernel :: "nat kernel" where
  "strict_kernel f ts =
     (case ts of
        [] \<Rightarrow> Inl ''no operands''
      | t # rest \<Rightarrow>
          if list_all (\<lambda>u. device u = device t) rest
          then Inr \<lparr>device = device t, dtype = dtype t, data = prod_list (map data ts)\<rparr>
          else Inl ''Expected all tensors to be on the same device'')"

definition mps_device :: device where
  "mps_device = \<lparr>type = ''mps'', index = Some 0\<rparr>"

definition cuda_device :: device where
  "cuda_device = \<lparr>type = ''cuda'', index = Some 0\<rparr>"

definition tensor_on :: "device \<Rightarrow> dtype \<Rightarrow> nat \<Rightarrow> nat tensor" where
  "tensor_on d ty n = \<lparr>device = d, dtype = ty, data = n\<rparr>"

definition world_of :: "nat tensor list \<Rightarrow> nat world" where
  "world_of ts = \<lparr>heap = ts, calls = []\<rparr>"

section \<open>Properties\<close>

subsection \<open>The library operations\<close>

lemma heap_log_call: "heap (log_call c w) = heap w" by (simp add: log_call_def)
lemma calls_log_call: "calls (log_call c w) = calls w @ [c]" by (simp add: log_call_def)

lemma tensor_cpu_heap:
  "heap (snd (tensor_cpu r w)) =
     heap w @ (if type (device (heap w ! r)) = ''cpu'' then [] else [(heap w ! r)\<lparr>device := cpu_device\<rparr>])"
  by (simp add: tensor_cpu_def Let_def alloc_def log_call_def)

lemma tensor_cpu_calls: "calls (snd (tensor_cpu r w)) = calls w @ [CallCpu (heap w ! r)]"
  by (simp add: tensor_cpu_def Let_def alloc_def log_call_def)

lemma tensor_cpu_result:
  "r < length (heap w) \<Longrightarrow> heap (snd (tensor_cpu r w)) ! fst (tensor_cpu r w) = on_cpu (heap w ! r)"
  by (simp add: tensor_cpu_def Let_def alloc_def log_call_def on_cpu_def nth_append)

lemma tensor_cpu_valid:
  "r < length (heap w) \<Longrightarrow> fst (tensor_cpu r w) < length (heap (snd (tensor_cpu r w)))"
  by (simp add: tensor_cpu_def Let_def alloc_def log_call_def)

lemma tensor_to_heap:
  "heap (snd (tensor_to r d w)) =
     heap w @ (if device (heap w ! r) = d then [] else [(heap w ! r)\<lparr>device := d\<rparr>])"
  by (simp add: tensor_to_def Let_def alloc_def log_call_def)

lemma tensor_to_calls: "calls (snd (tensor_to r d w)) = calls w @ [CallTo (heap w ! r) d]"
  by (simp add: tensor_to_def Let_def alloc_def log_call_def)

lemma tensor_to_result:
  "r < length (heap w) \<Longrightarrow> heap (snd (tensor_to r d w)) ! fst (tensor_to r d w) = (heap w ! r)\<lparr>device := d\<rparr>"
  by (auto simp add: tensor_to_def Let_def alloc_def log_call_def nth_append)

lemma tensor_to_valid:
  "r < length (heap w) \<Longrightarrow> fst (tensor_to r d w) < length (heap (snd (tensor_to r d w)))"
  by (simp add: tensor_to_def Let_def alloc_def log_call_def)

lemma native_heap:
  "heap (snd (native K f rs w)) =
     heap w @ (case K f (map (\<lambda>r. heap w ! r) rs) of Inl _ \<Rightarrow> [] | Inr t \<Rightarrow> [t])"
  by (simp add: native_def Let_def alloc_def log_call_def split: sum.splits)

lemma native_calls:
  "calls (snd (native K f rs w)) = calls w @ [CallNative f (map (\<lambda>r. heap w ! r) rs)]"
  by (simp add: native_def Let_def alloc_def log_call_def split: sum.splits)

lemma native_fst:
  "fst (native K f rs w) =
     (case K f (map (\<lambda>r. heap w ! r) rs) of Inl m \<Rightarrow> Inl (TorchError m) | Inr t \<Rightarrow> Inr (length (heap w)))"
  by (simp add: native_def Let_def alloc_def log_call_def split: sum.splits)

lemma cpu_all_spec:
  "\<forall>r\<in>set rs. r < length (heap w) \<Longrightarrow>
     prefix (heap w) (heap (snd (cpu_all rs w)))
   \<and> calls (snd (cpu_all rs w)) = calls w @ map (\<lambda>r. CallCpu (heap w ! r)) rs
   \<and> map (\<lambda>r. heap (snd (cpu_all rs w)) ! r) (fst (cpu_all rs w)) = map (\<lambda>r. on_cpu (heap w ! r)) rs
   \<and> (\<forall>r\<in>set (fst (cpu_all rs w)). r < length (heap (snd (cpu_all rs w))))"
proof (induction rs arbitrary: w)
  case Nil
  then show ?case by simp
next
  case (Cons r rs)
  let ?w1 = "snd (tensor_cpu r w)"
  let ?r1 = "fst (tensor_cpu r w)"
  have r: "r < length (heap w)" and rs: "\<forall>q\<in>set rs. q < length (heap w)"
    using Cons.prems by simp_all
  have h1: "heap ?w1 = heap w @ (if type (device (heap w ! r)) = ''cpu'' then [] else [(heap w ! r)\<lparr>device := cpu_device\<rparr>])"
    by (rule tensor_cpu_heap)
  have same: "\<forall>q\<in>set rs. heap ?w1 ! q = heap w ! q"
    using rs by (simp add: h1 nth_append)
  have rs1: "\<forall>q\<in>set rs. q < length (heap ?w1)"
    using rs by (auto simp add: h1 less_Suc_eq)
  note IH = Cons.IH [OF rs1]
  let ?w2 = "snd (cpu_all rs ?w1)"
  have eq: "cpu_all (r # rs) w = (?r1 # fst (cpu_all rs ?w1), ?w2)"
    by (simp add: case_prod_beta)
  have p01: "prefix (heap w) (heap ?w1)" by (simp add: h1)
  have p12: "prefix (heap ?w1) (heap ?w2)" using IH by simp
  have r1v: "?r1 < length (heap ?w1)" using r by (rule tensor_cpu_valid)
  have r1c: "heap ?w1 ! ?r1 = on_cpu (heap w ! r)" using r by (rule tensor_cpu_result)
  have keep: "heap ?w2 ! ?r1 = heap ?w1 ! ?r1"
    using p12 r1v by (auto simp: prefix_def nth_append)
  have len12: "length (heap ?w1) \<le> length (heap ?w2)"
    using p12 by (auto simp: prefix_def)
  show ?case
    unfolding eq fst_conv snd_conv
  proof (intro conjI)
    show "prefix (heap w) (heap ?w2)" using p01 p12 by (rule prefix_order.trans)
    show "calls ?w2 = calls w @ map (\<lambda>r. CallCpu (heap w ! r)) (r # rs)"
      using IH same by (simp add: tensor_cpu_calls)
    show "map ((!) (heap ?w2)) (?r1 # fst (cpu_all rs ?w1)) = map (\<lambda>r. on_cpu (heap w ! r)) (r # rs)"
      using IH same keep r1c by simp
    show "\<forall>q\<in>set (?r1 # fst (cpu_all rs ?w1)). q < length (heap ?w2)"
      using IH r1v len12 by auto
  qed
qed

subsection \<open>The two paths of a wrapper\<close>

lemma cpu_all_calls_shape:
  "\<exists>cs. calls (snd (cpu_all rs w)) = calls w @ cs \<and> (rs \<noteq> [] \<longrightarrow> (\<exists>t cs'. cs = CallCpu t # cs'))"
proof (induction rs arbitrary: w)
  case Nil
  then show ?case by simp
next
  case (Cons r rs)
  obtain cs where cs: "calls (snd (cpu_all rs (snd (tensor_cpu r w)))) = calls (snd (tensor_cpu r w)) @ cs"
    using Cons.IH by blast
  have "calls (snd (cpu_all (r # rs) w)) = calls w @ CallCpu (heap w ! r) # cs"
    by (simp add: case_prod_beta cs tensor_cpu_calls)
  then show ?case by blast
qed

lemma fallback_path_calls_shape:
  assumes "operands \<noteq> []"
  shows "\<exists>t cs. calls (snd (fallback_path K f operands w)) = calls w @ CallCpu t # cs"
proof -
  obtain t cs where c1: "calls (snd (cpu_all operands w)) = calls w @ CallCpu t # cs"
    using cpu_all_calls_shape [of operands w] assms by blast
  let ?w1 = "snd (cpu_all operands w)"
  let ?n = "native K f (fst (cpu_all operands w)) ?w1"
  have c2: "\<exists>ds. calls (snd ?n) = calls ?w1 @ ds"
    by (simp add: native_calls)
  have "\<exists>es. calls (snd (fallback_path K f operands w)) = calls (snd ?n) @ es"
    by (cases "fst ?n") (simp_all add: fallback_path_def Let_def case_prod_beta tensor_to_calls)
  with c1 c2 show ?thesis by auto
qed

lemma took_fallback_fallback_path:
  "operands \<noteq> [] \<Longrightarrow> took_fallback w (fallback_path K f operands w)"
  using fallback_path_calls_shape [of operands K f w]
  by (auto simp: took_fallback_def new_calls_def)

lemma new_calls_native:
  "new_calls w (native K f rs w) = [CallNative f (tensors_of w rs)]"
  by (simp add: new_calls_def native_calls tensors_of_def)

lemma took_fallback_native: "\<not> took_fallback w (native K f rs w)"
  by (simp add: took_fallback_def new_calls_native)

lemma mps_matmul_paths:
  "mps_matmul K a b w =
     (if needs_cpu_fallback (device (heap w ! a)) (tensors_of w [a, b])
      then fallback_path K Matmul [a, b] w else native K Matmul [a, b] w)"
  by (simp add: mps_matmul_def fallback_path_def tensors_of_def Let_def case_prod_beta cong: sum.case_cong)

lemma mps_bmm_paths:
  "mps_bmm K a b w =
     (if needs_cpu_fallback (device (heap w ! a)) (tensors_of w [a, b])
      then fallback_path K Bmm [a, b] w else native K Bmm [a, b] w)"
  by (simp add: mps_bmm_def fallback_path_def tensors_of_def Let_def case_prod_beta cong: sum.case_cong)

lemma mps_mm_paths:
  "mps_mm K a b w =
     (if needs_cpu_fallback (device (heap w ! a)) (tensors_of w [a, b])
      then fallback_path K Mm [a, b] w else native K Mm [a, b] w)"
  by (simp add: mps_mm_def fallback_path_def tensors_of_def Let_def case_prod_beta cong: sum.case_cong)

lemma mps_einsum_paths:
  "operands \<noteq> [] \<Longrightarrow> mps_einsum K equation operands w =
     (if needs_cpu_fallback (device (heap w ! hd operands)) (tensors_of w operands)
      then fallback_path K (Einsum equation) operands w
      else native K (Einsum equation) operands w)"
  by (simp add: mps_einsum_def fallback_path_def tensors_of_def Let_def case_prod_beta hd_conv_nth cong: sum.case_cong)

lemma any_complex_iff:
  "any_complex ts \<longleftrightarrow> (\<exists>t\<in>set ts. dtype t = complex64 \<or> dtype t = complex128)"
  by (induction ts) auto

lemma needs_cpu_fallback_iff:
  "needs_cpu_fallback dev ts \<longleftrightarrow>
     type dev = ''mps'' \<and> (\<exists>t\<in>set ts. dtype t = complex64 \<or> dtype t = complex128)"
  by (simp add: needs_cpu_fallback_def any_complex_iff)

lemma took_fallback_matmul:
  "took_fallback w (mps_matmul K a b w) = needs_cpu_fallback (device (heap w ! a)) (tensors_of w [a, b])"
  by (simp add: mps_matmul_paths took_fallback_native took_fallback_fallback_path)

lemma took_fallback_bmm:
  "took_fallback w (mps_bmm K a b w) = needs_cpu_fallback (device (heap w ! a)) (tensors_of w [a, b])"
  by (simp add: mps_bmm_paths took_fallback_native took_fallback_fallback_path)

lemma took_fallback_mm:
  "took_fallback w (mps_mm K a b w) = needs_cpu_fallback (device (heap w ! a)) (tensors_of w [a, b])"
  by (simp add: mps_mm_paths took_fallback_native took_fallback_fallback_path)

lemma took_fallback_einsum:
  "operands \<noteq> [] \<Longrightarrow> took_fallback w (mps_einsum K equation operands w) =
     needs_cpu_fallback (device (heap w ! hd operands)) (tensors_of w operands)"
  by (simp add: mps_einsum_paths took_fallback_native took_fallback_fallback_path)

lemma any_complex_dtypes_set:
  "any_complex ts \<longleftrightarrow> complex64 \<in> set (map dtype ts) \<or> complex128 \<in> set (map dtype ts)"
  by (induction ts) auto

lemma any_complex_dtypes:
  "map dtype ts = map dtype ts' \<Longrightarrow> any_complex ts = any_complex ts'"
  by (simp only: any_complex_dtypes_set)

lemma needs_cpu_fallback_cong:
  "type d = type d' \<Longrightarrow> map dtype ts = map dtype ts' \<Longrightarrow>
     needs_cpu_fallback d ts = needs_cpu_fallback d' ts'"
  using any_complex_dtypes [of ts ts'] by (simp add: needs_cpu_fallback_def)

subsection \<open>The dispatch\<close>

text \<open>
  C3: \<open>_needs_cpu_fallback(device, tensors...)\<close> is true exactly when the device type is
  \<open>mps\<close> and one of the tensors has dtype \<open>complex64\<close> or \<open>complex128\<close>, and each of the
  four wrappers takes its fallback path exactly when this predicate holds of the first
  operand's device and the operands (for \<open>mps_einsum\<close>: once it has operands at all).
\<close>

theorem dispatch_is_the_capability_check:
  "(needs_cpu_fallback dev ts \<longleftrightarrow>
      type dev = ''mps'' \<and> (\<exists>t\<in>set ts. dtype t = complex64 \<or> dtype t = complex128))
   \<and> took_fallback w (mps_matmul K a b w)
       = needs_cpu_fallback (device (heap w ! a)) (tensors_of w [a, b])
   \<and> took_fallback w (mps_bmm K a b w)
       = needs_cpu_fallback (device (heap w ! a)) (tensors_of w [a, b])
   \<and> took_fallback w (mps_mm K a b w)
       = needs_cpu_fallback (device (heap w ! a)) (tensors_of w [a, b])
   \<and> (operands \<noteq> [] \<longrightarrow>
        took_fallback w (mps_einsum K equation operands w)
          = needs_cpu_fallback (device (heap w ! hd operands)) (tensors_of w operands))"
  using needs_cpu_fallback_iff [of dev ts]
  by (simp add: took_fallback_matmul took_fallback_bmm took_fallback_mm took_fallback_einsum)

theorem dispatch_is_the_capability_check_witness:
  "[0, 1] \<noteq> ([] :: ref list)
   \<and> needs_cpu_fallback mps_device
        [tensor_on mps_device float32 2, tensor_on cpu_device complex128 3]
   \<and> took_fallback (world_of [tensor_on mps_device float32 2, tensor_on cpu_device complex128 3])
        (mps_einsum strict_kernel ''ij,jk->ik'' [0, 1]
           (world_of [tensor_on mps_device float32 2, tensor_on cpu_device complex128 3]))"
proof -
  let ?w = "world_of [tensor_on mps_device float32 2, tensor_on cpu_device complex128 3]"
  have ne: "[0, 1] \<noteq> ([] :: ref list)" by simp
  have n: "needs_cpu_fallback mps_device
        [tensor_on mps_device float32 2, tensor_on cpu_device complex128 3]"
    by (simp add: needs_cpu_fallback_def mps_device_def tensor_on_def)
  have t: "tensors_of ?w [0, 1] = [tensor_on mps_device float32 2, tensor_on cpu_device complex128 3]"
    by (simp add: tensors_of_def world_of_def)
  have d: "device (heap ?w ! hd [0, 1]) = mps_device"
    by (simp add: world_of_def tensor_on_def)
  from dispatch_is_the_capability_check [of mps_device "[]" ?w strict_kernel 0 1 "[0, 1]" "''ij,jk->ik''"]
  have "took_fallback ?w (mps_einsum strict_kernel ''ij,jk->ik'' [0, 1] ?w)
          = needs_cpu_fallback (device (heap ?w ! hd [0, 1])) (tensors_of ?w [0, 1])"
    using ne by blast
  with n t d ne show ?thesis by simp
qed

text \<open>
  C8: of the devices, only that of the first operand enters the decision. Two calls whose
  first operands are on devices of the same type and whose operands agree in dtype, one by
  one, take the same path, wherever the remaining operands are.
\<close>

theorem dispatch_ignores_other_devices:
  "(type (device (heap w ! a)) = type (device (heap w' ! a'))
      \<and> dtype (heap w ! a) = dtype (heap w' ! a')
      \<and> dtype (heap w ! b) = dtype (heap w' ! b')
    \<longrightarrow> took_fallback w (mps_matmul K a b w) = took_fallback w' (mps_matmul K' a' b' w')
      \<and> took_fallback w (mps_bmm K a b w) = took_fallback w' (mps_bmm K' a' b' w')
      \<and> took_fallback w (mps_mm K a b w) = took_fallback w' (mps_mm K' a' b' w'))
   \<and> (operands \<noteq> [] \<and> operands' \<noteq> []
      \<and> type (device (heap w ! hd operands)) = type (device (heap w' ! hd operands'))
      \<and> map dtype (tensors_of w operands) = map dtype (tensors_of w' operands')
    \<longrightarrow> took_fallback w (mps_einsum K equation operands w)
        = took_fallback w' (mps_einsum K' equation' operands' w'))"
proof (intro conjI impI)
  assume h: "type (device (heap w ! a)) = type (device (heap w' ! a'))
      \<and> dtype (heap w ! a) = dtype (heap w' ! a')
      \<and> dtype (heap w ! b) = dtype (heap w' ! b')"
  then have "map dtype (tensors_of w [a, b]) = map dtype (tensors_of w' [a', b'])"
    by (simp add: tensors_of_def)
  with h have n: "needs_cpu_fallback (device (heap w ! a)) (tensors_of w [a, b])
      = needs_cpu_fallback (device (heap w' ! a')) (tensors_of w' [a', b'])"
    by (intro needs_cpu_fallback_cong) simp_all
  show "took_fallback w (mps_matmul K a b w) = took_fallback w' (mps_matmul K' a' b' w')"
    by (simp only: took_fallback_matmul n)
  show "took_fallback w (mps_bmm K a b w) = took_fallback w' (mps_bmm K' a' b' w')"
    by (simp only: took_fallback_bmm n)
  show "took_fallback w (mps_mm K a b w) = took_fallback w' (mps_mm K' a' b' w')"
    by (simp only: took_fallback_mm n)
next
  assume h: "operands \<noteq> [] \<and> operands' \<noteq> []
      \<and> type (device (heap w ! hd operands)) = type (device (heap w' ! hd operands'))
      \<and> map dtype (tensors_of w operands) = map dtype (tensors_of w' operands')"
  then have "needs_cpu_fallback (device (heap w ! hd operands)) (tensors_of w operands)
      = needs_cpu_fallback (device (heap w' ! hd operands')) (tensors_of w' operands')"
    by (intro needs_cpu_fallback_cong) simp_all
  with h show "took_fallback w (mps_einsum K equation operands w)
        = took_fallback w' (mps_einsum K' equation' operands' w')"
    by (simp add: took_fallback_einsum)
qed

theorem dispatch_ignores_other_devices_witness:
  "took_fallback (world_of [tensor_on mps_device float32 2, tensor_on cpu_device complex64 3])
     (mps_matmul strict_kernel 0 1
        (world_of [tensor_on mps_device float32 2, tensor_on cpu_device complex64 3]))
   = took_fallback (world_of [tensor_on mps_device float32 5, tensor_on cuda_device complex64 7])
       (mps_matmul strict_kernel 0 1
          (world_of [tensor_on mps_device float32 5, tensor_on cuda_device complex64 7]))"
proof -
  let ?w = "world_of [tensor_on mps_device float32 2, tensor_on cpu_device complex64 3]"
  let ?w' = "world_of [tensor_on mps_device float32 5, tensor_on cuda_device complex64 7]"
  have h: "type (device (heap ?w ! 0)) = type (device (heap ?w' ! 0))
      \<and> dtype (heap ?w ! 0) = dtype (heap ?w' ! 0)
      \<and> dtype (heap ?w ! 1) = dtype (heap ?w' ! 1)"
    by (simp add: world_of_def tensor_on_def)
  from dispatch_ignores_other_devices
         [of ?w 0 ?w' 0 1 1 strict_kernel strict_kernel "[]" "[]"] h
  show ?thesis by blast
qed

text \<open>
  C9: \<open>contract\<close> is \<open>mps_einsum\<close>: the same result, the same error and the same effects
  for every equation and operand list.
\<close>

theorem contract_is_mps_einsum:
  "contract K equation operands w = mps_einsum K equation operands w"
  by (simp add: contract_def)

text \<open>
  C7: two \<open>complex32\<close> tensors on an \<open>mps\<close> device. The dtype holds complex numbers, yet
  the capability check is false and \<open>mps_matmul\<close> hands both tensors to the operator on
  the \<open>mps\<close> device: the only library call is the operator on the operands as given.
\<close>

theorem complex32_on_mps_is_not_rerouted:
  "is_complex complex32
   \<and> \<not> needs_cpu_fallback mps_device
         [tensor_on mps_device complex32 2, tensor_on mps_device complex32 3]
   \<and> new_calls (world_of [tensor_on mps_device complex32 2, tensor_on mps_device complex32 3])
        (mps_matmul strict_kernel 0 1
           (world_of [tensor_on mps_device complex32 2, tensor_on mps_device complex32 3]))
       = [CallNative Matmul [tensor_on mps_device complex32 2, tensor_on mps_device complex32 3]]"
  by (simp add: needs_cpu_fallback_def mps_matmul_def new_calls_def native_calls
      world_of_def tensor_on_def mps_device_def)

subsection \<open>Frames and outcomes of the two paths\<close>

lemma valid_refs_iff: "valid_refs w rs \<longleftrightarrow> (\<forall>r\<in>set rs. r < length (heap w))"
  by (simp add: valid_refs_def list_all_iff)

lemma tensor_cpu_prefix: "prefix (heap w) (heap (snd (tensor_cpu r w)))"
  by (simp add: tensor_cpu_heap)

lemma cpu_all_prefix: "prefix (heap w) (heap (snd (cpu_all rs w)))"
proof (induction rs arbitrary: w)
  case Nil
  then show ?case by simp
next
  case (Cons r rs)
  have "prefix (heap w) (heap (snd (tensor_cpu r w)))" by (rule tensor_cpu_prefix)
  also have "prefix \<dots> (heap (snd (cpu_all rs (snd (tensor_cpu r w)))))" by (rule Cons.IH)
  finally show ?case by (simp add: case_prod_beta)
qed

lemma native_prefix: "prefix (heap w) (heap (snd (native K f rs w)))"
  by (simp add: native_heap)

lemma native_fresh:
  "fst (native K f rs w) = Inr r \<Longrightarrow> r = length (heap w) \<and> r < length (heap (snd (native K f rs w)))"
  by (auto simp: native_fst native_heap split: sum.splits)

lemma tensor_to_prefix: "prefix (heap w) (heap (snd (tensor_to r d w)))"
  by (simp add: tensor_to_heap)

lemma tensor_to_fresh:
  "n \<le> r \<Longrightarrow> r < length (heap w) \<Longrightarrow>
     n \<le> fst (tensor_to r d w) \<and> fst (tensor_to r d w) < length (heap (snd (tensor_to r d w)))"
  by (simp add: tensor_to_def Let_def alloc_def log_call_def)

lemma fallback_path_error:
  "fst (native K f (fst (cpu_all rs w)) (snd (cpu_all rs w))) = Inl e \<Longrightarrow>
     fallback_path K f rs w = (Inl e, snd (native K f (fst (cpu_all rs w)) (snd (cpu_all rs w))))"
  by (simp add: fallback_path_def Let_def case_prod_beta)

lemma fallback_path_result:
  "fst (native K f (fst (cpu_all rs w)) (snd (cpu_all rs w))) = Inr r \<Longrightarrow>
     fallback_path K f rs w =
       (Inr (fst (tensor_to r (device (heap w ! (rs ! 0)))
                   (snd (native K f (fst (cpu_all rs w)) (snd (cpu_all rs w)))))),
        snd (tensor_to r (device (heap w ! (rs ! 0)))
               (snd (native K f (fst (cpu_all rs w)) (snd (cpu_all rs w))))))"
  by (simp add: fallback_path_def Let_def case_prod_beta)

lemma fallback_path_prefix: "prefix (heap w) (heap (snd (fallback_path K f rs w)))"
proof -
  let ?w1 = "snd (cpu_all rs w)"
  let ?n = "native K f (fst (cpu_all rs w)) ?w1"
  have "prefix (heap w) (heap ?w1)" by (rule cpu_all_prefix)
  also have "prefix \<dots> (heap (snd ?n))" by (rule native_prefix)
  finally have p: "prefix (heap w) (heap (snd ?n))" .
  show ?thesis
  proof (cases "fst ?n")
    case (Inl e)
    with p show ?thesis by (simp add: fallback_path_error)
  next
    case (Inr r)
    note p
    also have "prefix (heap (snd ?n))
        (heap (snd (tensor_to r (device (heap w ! (rs ! 0))) (snd ?n))))"
      by (rule tensor_to_prefix)
    finally show ?thesis by (simp add: fallback_path_result [OF Inr])
  qed
qed

lemma fallback_path_fresh:
  assumes "fst (fallback_path K f rs w) = Inr r"
  shows "length (heap w) \<le> r \<and> r < length (heap (snd (fallback_path K f rs w)))"
proof -
  let ?w1 = "snd (cpu_all rs w)"
  let ?n = "native K f (fst (cpu_all rs w)) ?w1"
  have len: "length (heap w) \<le> length (heap ?w1)"
    using cpu_all_prefix [of w rs] by (rule prefix_length_le)
  show ?thesis
  proof (cases "fst ?n")
    case (Inl e)
    with assms show ?thesis by (simp add: fallback_path_error)
  next
    case (Inr q)
    from native_fresh [OF Inr] have q: "length (heap w) \<le> q" "q < length (heap (snd ?n))"
      using len by simp_all
    from tensor_to_fresh [OF q, of "device (heap w ! (rs ! 0))"] assms
    show ?thesis by (simp add: fallback_path_result [OF Inr])
  qed
qed

lemma fallback_path_calls:
  assumes v: "valid_refs w rs"
  shows "new_calls w (fallback_path K f rs w) =
     map CallCpu (tensors_of w rs) @ [CallNative f (map on_cpu (tensors_of w rs))]
       @ (case K f (map on_cpu (tensors_of w rs)) of
            Inl _ \<Rightarrow> [] | Inr t \<Rightarrow> [CallTo t (device (heap w ! (rs ! 0)))])"
proof -
  let ?w1 = "snd (cpu_all rs w)"
  let ?rs1 = "fst (cpu_all rs w)"
  let ?n = "native K f ?rs1 ?w1"
  let ?cts = "map on_cpu (tensors_of w rs)"
  from v have v': "\<forall>r\<in>set rs. r < length (heap w)" by (simp add: valid_refs_iff)
  note spec = cpu_all_spec [OF v']
  have c1: "calls ?w1 = calls w @ map CallCpu (tensors_of w rs)"
    using spec by (simp add: tensors_of_def comp_def)
  have args: "map (\<lambda>r. heap ?w1 ! r) ?rs1 = ?cts"
    using spec by (simp add: tensors_of_def comp_def)
  have c2: "calls (snd ?n) = calls ?w1 @ [CallNative f ?cts]"
    by (simp add: native_calls args)
  show ?thesis
  proof (cases "K f ?cts")
    case (Inl m)
    then have "fst ?n = Inl (TorchError m)" by (simp add: native_fst args)
    then show ?thesis using c1 c2 Inl by (simp add: fallback_path_error new_calls_def)
  next
    case (Inr t)
    then have n: "fst ?n = Inr (length (heap ?w1))" by (simp add: native_fst args)
    have "heap (snd ?n) ! length (heap ?w1) = t"
      using Inr by (simp add: native_heap args)
    then show ?thesis
      using c1 c2 Inr by (simp add: fallback_path_result [OF n] new_calls_def tensor_to_calls)
  qed
qed

lemma fallback_path_outcome:
  assumes v: "valid_refs w rs"
  shows "outcome (fallback_path K f rs w) =
     moved_to (device (heap w ! (rs ! 0))) (kernel_outcome K f (map on_cpu (tensors_of w rs)))"
proof -
  let ?w1 = "snd (cpu_all rs w)"
  let ?rs1 = "fst (cpu_all rs w)"
  let ?n = "native K f ?rs1 ?w1"
  let ?cts = "map on_cpu (tensors_of w rs)"
  from v have v': "\<forall>r\<in>set rs. r < length (heap w)" by (simp add: valid_refs_iff)
  have args: "map (\<lambda>r. heap ?w1 ! r) ?rs1 = ?cts"
    using cpu_all_spec [OF v'] by (simp add: tensors_of_def comp_def)
  show ?thesis
  proof (cases "K f ?cts")
    case (Inl m)
    then have "fst ?n = Inl (TorchError m)" by (simp add: native_fst args)
    then show ?thesis
      using Inl by (simp add: fallback_path_error outcome_def moved_to_def kernel_outcome_def)
  next
    case (Inr t)
    then have n: "fst ?n = Inr (length (heap ?w1))" by (simp add: native_fst args)
    have t: "heap (snd ?n) ! length (heap ?w1) = t"
      using Inr by (simp add: native_heap args)
    have lt: "length (heap ?w1) < length (heap (snd ?n))"
      using Inr by (simp add: native_heap args)
    show ?thesis
      using Inr tensor_to_result [OF lt, of "device (heap w ! (rs ! 0))"]
      by (simp add: fallback_path_result [OF n] outcome_def moved_to_def kernel_outcome_def t)
  qed
qed

lemma native_outcome: "outcome (native K f rs w) = kernel_outcome K f (tensors_of w rs)"
  by (simp add: outcome_def kernel_outcome_def native_fst native_heap tensors_of_def
      split: sum.splits)

subsection \<open>What a wrapper returns\<close>

lemma wrapper_outcome_binary:
  assumes "valid_refs w [a, b]"
  shows "outcome (if needs_cpu_fallback (device (heap w ! a)) (tensors_of w [a, b])
                  then fallback_path K f [a, b] w else native K f [a, b] w)
     = (if needs_cpu_fallback (device (heap w ! a)) (tensors_of w [a, b])
        then moved_to (device (heap w ! a)) (kernel_outcome K f (map on_cpu (tensors_of w [a, b])))
        else kernel_outcome K f (tensors_of w [a, b]))"
  using fallback_path_outcome [OF assms, of K f] by (simp add: native_outcome)

lemma wrapper_outcome_einsum:
  assumes "operands \<noteq> []" "valid_refs w operands"
  shows "outcome (mps_einsum K equation operands w)
     = (if needs_cpu_fallback (device (heap w ! hd operands)) (tensors_of w operands)
        then moved_to (device (heap w ! hd operands))
               (kernel_outcome K (Einsum equation) (map on_cpu (tensors_of w operands)))
        else kernel_outcome K (Einsum equation) (tensors_of w operands))"
  using fallback_path_outcome [OF assms(2), of K "Einsum equation"] assms(1)
  by (simp add: mps_einsum_paths native_outcome hd_conv_nth)

text \<open>
  C1 (as amended): on the native branch a wrapper returns what the operator returns on the
  operands as given; on the fallback branch it returns what the operator returns on the CPU
  copies of all operands, placed on the first operand's device. Errors of the operator are
  returned as they are.
\<close>

theorem wrapper_value:
  "(valid_refs w [a, b] \<longrightarrow>
      outcome (mps_matmul K a b w)
        = (if needs_cpu_fallback (device (heap w ! a)) (tensors_of w [a, b])
           then moved_to (device (heap w ! a))
                  (kernel_outcome K Matmul (map on_cpu (tensors_of w [a, b])))
           else kernel_outcome K Matmul (tensors_of w [a, b]))
    \<and> outcome (mps_bmm K a b w)
        = (if needs_cpu_fallback (device (heap w ! a)) (tensors_of w [a, b])
           then moved_to (device (heap w ! a))
                  (kernel_outcome K Bmm (map on_cpu (tensors_of w [a, b])))
           else kernel_outcome K Bmm (tensors_of w [a, b]))
    \<and> outcome (mps_mm K a b w)
        = (if needs_cpu_fallback (device (heap w ! a)) (tensors_of w [a, b])
           then moved_to (device (heap w ! a))
                  (kernel_outcome K Mm (map on_cpu (tensors_of w [a, b])))
           else kernel_outcome K Mm (tensors_of w [a, b])))
   \<and> (operands \<noteq> [] \<and> valid_refs w operands \<longrightarrow>
      outcome (mps_einsum K equation operands w)
        = (if needs_cpu_fallback (device (heap w ! hd operands)) (tensors_of w operands)
           then moved_to (device (heap w ! hd operands))
                  (kernel_outcome K (Einsum equation) (map on_cpu (tensors_of w operands)))
           else kernel_outcome K (Einsum equation) (tensors_of w operands)))"
proof (intro conjI impI)
  assume v: "valid_refs w [a, b]"
  show "outcome (mps_matmul K a b w)
        = (if needs_cpu_fallback (device (heap w ! a)) (tensors_of w [a, b])
           then moved_to (device (heap w ! a))
                  (kernel_outcome K Matmul (map on_cpu (tensors_of w [a, b])))
           else kernel_outcome K Matmul (tensors_of w [a, b]))"
    unfolding mps_matmul_paths by (rule wrapper_outcome_binary [OF v])
  show "outcome (mps_bmm K a b w)
        = (if needs_cpu_fallback (device (heap w ! a)) (tensors_of w [a, b])
           then moved_to (device (heap w ! a))
                  (kernel_outcome K Bmm (map on_cpu (tensors_of w [a, b])))
           else kernel_outcome K Bmm (tensors_of w [a, b]))"
    unfolding mps_bmm_paths by (rule wrapper_outcome_binary [OF v])
  show "outcome (mps_mm K a b w)
        = (if needs_cpu_fallback (device (heap w ! a)) (tensors_of w [a, b])
           then moved_to (device (heap w ! a))
                  (kernel_outcome K Mm (map on_cpu (tensors_of w [a, b])))
           else kernel_outcome K Mm (tensors_of w [a, b]))"
    unfolding mps_mm_paths by (rule wrapper_outcome_binary [OF v])
next
  assume "operands \<noteq> [] \<and> valid_refs w operands"
  then show "outcome (mps_einsum K equation operands w)
        = (if needs_cpu_fallback (device (heap w ! hd operands)) (tensors_of w operands)
           then moved_to (device (heap w ! hd operands))
                  (kernel_outcome K (Einsum equation) (map on_cpu (tensors_of w operands)))
           else kernel_outcome K (Einsum equation) (tensors_of w operands))"
    by (simp add: wrapper_outcome_einsum)
qed

lemma example_valid: "valid_refs (world_of [s, t]) [0, 1]"
  by (simp add: valid_refs_def world_of_def)

text \<open>
  C1 as stated, that a wrapper returns what the operator returns on the operands
  themselves on either branch, does not hold: with the first operand on \<open>mps\<close> and the
  second on the CPU, both \<open>complex64\<close>, the operator refuses the operands as given while
  \<open>mps_matmul\<close> returns their product on the \<open>mps\<close> device.
\<close>

theorem drop_in_counterexample:
  "outcome (mps_matmul strict_kernel 0 1
              (world_of [tensor_on mps_device complex64 2, tensor_on cpu_device complex64 3]))
     = Inr (tensor_on mps_device complex64 6)
   \<and> outcome (native strict_kernel Matmul [0, 1]
              (world_of [tensor_on mps_device complex64 2, tensor_on cpu_device complex64 3]))
     = Inl (TorchError ''Expected all tensors to be on the same device'')"
proof -
  let ?w = "world_of [tensor_on mps_device complex64 2, tensor_on cpu_device complex64 3]"
  have v: "valid_refs ?w [0, 1]" by (rule example_valid)
  have n: "needs_cpu_fallback (device (heap ?w ! 0)) (tensors_of ?w [0, 1])"
    by (simp add: tensors_of_def world_of_def needs_cpu_fallback_def tensor_on_def mps_device_def)
  have "outcome (mps_matmul strict_kernel 0 1 ?w)
      = moved_to (device (heap ?w ! 0))
          (kernel_outcome strict_kernel Matmul (map on_cpu (tensors_of ?w [0, 1])))"
    using wrapper_outcome_binary [OF v, of strict_kernel Matmul] n
    by (simp add: mps_matmul_paths)
  also have "\<dots> = Inr (tensor_on mps_device complex64 6)"
    by (simp add: tensors_of_def world_of_def moved_to_def kernel_outcome_def strict_kernel_def on_cpu_def
        tensor_on_def mps_device_def cpu_device_def)
  finally have 1: "outcome (mps_matmul strict_kernel 0 1 ?w) = Inr (tensor_on mps_device complex64 6)" .
  have 2: "outcome (native strict_kernel Matmul [0, 1] ?w)
      = Inl (TorchError ''Expected all tensors to be on the same device'')"
    by (simp add: native_outcome tensors_of_def world_of_def kernel_outcome_def strict_kernel_def
        tensor_on_def mps_device_def cpu_device_def)
  from 1 2 show ?thesis by simp
qed

theorem wrapper_value_witness:
  "valid_refs (world_of [tensor_on mps_device complex64 2, tensor_on mps_device float32 3]) [0, 1]
   \<and> outcome (mps_matmul strict_kernel 0 1
        (world_of [tensor_on mps_device complex64 2, tensor_on mps_device float32 3]))
     = Inr (tensor_on mps_device complex64 6)
   \<and> outcome (mps_einsum strict_kernel ''ij,jk->ik'' [0, 1]
        (world_of [tensor_on mps_device complex64 2, tensor_on mps_device float32 3]))
     = Inr (tensor_on mps_device complex64 6)"
proof -
  let ?w = "world_of [tensor_on mps_device complex64 2, tensor_on mps_device float32 3]"
  have v: "valid_refs ?w [0, 1]" by (rule example_valid)
  have ne: "[0, 1] \<noteq> ([] :: ref list)" by simp
  have n: "needs_cpu_fallback (device (heap ?w ! 0)) (tensors_of ?w [0, 1])"
    by (simp add: tensors_of_def world_of_def needs_cpu_fallback_def tensor_on_def mps_device_def)
  have k: "moved_to (device (heap ?w ! 0))
          (kernel_outcome strict_kernel f (map on_cpu (tensors_of ?w [0, 1])))
        = Inr (tensor_on mps_device complex64 6)" for f
    by (simp add: tensors_of_def world_of_def moved_to_def kernel_outcome_def strict_kernel_def on_cpu_def
        tensor_on_def mps_device_def cpu_device_def)
  from wrapper_value [of ?w 0 1 strict_kernel "[0, 1]" "''ij,jk->ik''"] v ne
  have "outcome (mps_matmul strict_kernel 0 1 ?w)
        = (if needs_cpu_fallback (device (heap ?w ! 0)) (tensors_of ?w [0, 1])
           then moved_to (device (heap ?w ! 0))
                  (kernel_outcome strict_kernel Matmul (map on_cpu (tensors_of ?w [0, 1])))
           else kernel_outcome strict_kernel Matmul (tensors_of ?w [0, 1]))"
    and "outcome (mps_einsum strict_kernel ''ij,jk->ik'' [0, 1] ?w)
        = (if needs_cpu_fallback (device (heap ?w ! hd [0, 1])) (tensors_of ?w [0, 1])
           then moved_to (device (heap ?w ! hd [0, 1]))
                  (kernel_outcome strict_kernel (Einsum ''ij,jk->ik'') (map on_cpu (tensors_of ?w [0, 1])))
           else kernel_outcome strict_kernel (Einsum ''ij,jk->ik'') (tensors_of ?w [0, 1]))"
    by blast+
  with n k v show ?thesis by simp
qed

subsection \<open>The fallback path\<close>

lemma moved_to_device: "moved_to d x = Inr t \<Longrightarrow> device t = d"
  by (auto simp: moved_to_def split: sum.splits)

lemma fallback_outcome_device:
  assumes "valid_refs w rs" "outcome (fallback_path K f rs w) = Inr t"
  shows "device t = device (heap w ! (rs ! 0))"
  using assms(2) unfolding fallback_path_outcome [OF assms(1)] by (rule moved_to_device)

text \<open>
  C2: when the fallback path is taken and the operator returns, the tensor that the wrapper
  returns is on the device of the first operand.
\<close>

theorem fallback_result_on_original_device:
  "(valid_refs w [a, b] \<and> needs_cpu_fallback (device (heap w ! a)) (tensors_of w [a, b]) \<longrightarrow>
      (outcome (mps_matmul K a b w) = Inr t \<longrightarrow> device t = device (heap w ! a))
    \<and> (outcome (mps_bmm K a b w) = Inr t \<longrightarrow> device t = device (heap w ! a))
    \<and> (outcome (mps_mm K a b w) = Inr t \<longrightarrow> device t = device (heap w ! a)))
   \<and> (operands \<noteq> [] \<and> valid_refs w operands
        \<and> needs_cpu_fallback (device (heap w ! hd operands)) (tensors_of w operands) \<longrightarrow>
      (outcome (mps_einsum K equation operands w) = Inr t \<longrightarrow>
         device t = device (heap w ! hd operands)))"
proof (intro conjI impI)
  assume h: "valid_refs w [a, b] \<and> needs_cpu_fallback (device (heap w ! a)) (tensors_of w [a, b])"
  then have v: "valid_refs w [a, b]" by simp
  { assume "outcome (mps_matmul K a b w) = Inr t"
    with h have "outcome (fallback_path K Matmul [a, b] w) = Inr t" by (simp add: mps_matmul_paths)
    from fallback_outcome_device [OF v this] show "device t = device (heap w ! a)" by simp }
  { assume "outcome (mps_bmm K a b w) = Inr t"
    with h have "outcome (fallback_path K Bmm [a, b] w) = Inr t" by (simp add: mps_bmm_paths)
    from fallback_outcome_device [OF v this] show "device t = device (heap w ! a)" by simp }
  { assume "outcome (mps_mm K a b w) = Inr t"
    with h have "outcome (fallback_path K Mm [a, b] w) = Inr t" by (simp add: mps_mm_paths)
    from fallback_outcome_device [OF v this] show "device t = device (heap w ! a)" by simp }
next
  assume h: "operands \<noteq> [] \<and> valid_refs w operands
        \<and> needs_cpu_fallback (device (heap w ! hd operands)) (tensors_of w operands)"
    and o: "outcome (mps_einsum K equation operands w) = Inr t"
  from h have v: "valid_refs w operands" by simp
  from h o have "outcome (fallback_path K (Einsum equation) operands w) = Inr t"
    by (simp add: mps_einsum_paths)
  from fallback_outcome_device [OF v this] h show "device t = device (heap w ! hd operands)"
    by (simp add: hd_conv_nth)
qed

theorem fallback_result_on_original_device_witness:
  "valid_refs (world_of [tensor_on mps_device complex64 2, tensor_on cpu_device float32 3]) [0, 1]
   \<and> needs_cpu_fallback mps_device
        [tensor_on mps_device complex64 2, tensor_on cpu_device float32 3]
   \<and> outcome (mps_matmul strict_kernel 0 1
        (world_of [tensor_on mps_device complex64 2, tensor_on cpu_device float32 3]))
       = Inr (tensor_on mps_device complex64 6)
   \<and> device (tensor_on mps_device complex64 6) = mps_device"
proof -
  let ?w = "world_of [tensor_on mps_device complex64 2, tensor_on cpu_device float32 3]"
  have v: "valid_refs ?w [0, 1]" by (rule example_valid)
  have n: "needs_cpu_fallback mps_device
        [tensor_on mps_device complex64 2, tensor_on cpu_device float32 3]"
    by (simp add: needs_cpu_fallback_def tensor_on_def mps_device_def)
  have n': "needs_cpu_fallback (device (heap ?w ! 0)) (tensors_of ?w [0, 1])"
    using n by (simp add: tensors_of_def world_of_def tensor_on_def)
  have o: "outcome (mps_matmul strict_kernel 0 1 ?w) = Inr (tensor_on mps_device complex64 6)"
    using wrapper_outcome_binary [OF v, of strict_kernel Matmul] n'
    by (simp add: mps_matmul_paths)
       (simp add: tensors_of_def world_of_def moved_to_def kernel_outcome_def strict_kernel_def
          on_cpu_def tensor_on_def mps_device_def cpu_device_def)
  from fallback_result_on_original_device
         [of ?w 0 1 strict_kernel "tensor_on mps_device complex64 6" "[]" "[]"] v n' o
  have "device (tensor_on mps_device complex64 6) = device (heap ?w ! 0)" by blast
  then have "device (tensor_on mps_device complex64 6) = mps_device"
    by (simp add: world_of_def tensor_on_def)
  with v n o show ?thesis by simp
qed

text \<open>
  C5: when the first operand is not on an \<open>mps\<close> device, the wrapper is the operator
  applied to the operands as given: same result, same world, and the operator call is the
  only library call, so nothing is copied to the CPU or back.
\<close>

theorem non_mps_runs_native_directly:
  "(type (device (heap w ! a)) \<noteq> ''mps'' \<longrightarrow>
      mps_matmul K a b w = native K Matmul [a, b] w
    \<and> new_calls w (mps_matmul K a b w) = [CallNative Matmul (tensors_of w [a, b])]
    \<and> mps_bmm K a b w = native K Bmm [a, b] w
    \<and> new_calls w (mps_bmm K a b w) = [CallNative Bmm (tensors_of w [a, b])]
    \<and> mps_mm K a b w = native K Mm [a, b] w
    \<and> new_calls w (mps_mm K a b w) = [CallNative Mm (tensors_of w [a, b])])
   \<and> (operands \<noteq> [] \<and> type (device (heap w ! hd operands)) \<noteq> ''mps'' \<longrightarrow>
      mps_einsum K equation operands w = native K (Einsum equation) operands w
    \<and> new_calls w (mps_einsum K equation operands w)
        = [CallNative (Einsum equation) (tensors_of w operands)])"
  by (simp add: mps_matmul_paths mps_bmm_paths mps_mm_paths mps_einsum_paths
      needs_cpu_fallback_def new_calls_native)

theorem non_mps_runs_native_directly_witness:
  "type (device (heap (world_of [tensor_on cuda_device complex64 2,
                                 tensor_on cuda_device complex64 3]) ! 0)) \<noteq> ''mps''
   \<and> new_calls (world_of [tensor_on cuda_device complex64 2, tensor_on cuda_device complex64 3])
        (mps_bmm strict_kernel 0 1
           (world_of [tensor_on cuda_device complex64 2, tensor_on cuda_device complex64 3]))
       = [CallNative Bmm [tensor_on cuda_device complex64 2, tensor_on cuda_device complex64 3]]"
proof -
  let ?w = "world_of [tensor_on cuda_device complex64 2, tensor_on cuda_device complex64 3]"
  have d: "type (device (heap ?w ! 0)) \<noteq> ''mps''"
    by (simp add: world_of_def tensor_on_def cuda_device_def)
  from non_mps_runs_native_directly [of ?w 0 strict_kernel 1 "[]" "[]"] d
  have "new_calls ?w (mps_bmm strict_kernel 0 1 ?w) = [CallNative Bmm (tensors_of ?w [0, 1])]"
    by blast
  with d show ?thesis by (simp add: tensors_of_def world_of_def)
qed

lemma on_cpu_fields:
  "type (device (on_cpu t)) = ''cpu''" "dtype (on_cpu t) = dtype t" "data (on_cpu t) = data t"
  by (simp_all add: on_cpu_def cpu_device_def)

lemma fallback_path_calls_prefix:
  assumes "valid_refs w rs"
  shows "prefix (map CallCpu (tensors_of w rs) @ [CallNative f (map on_cpu (tensors_of w rs))])
           (new_calls w (fallback_path K f rs w))"
  unfolding fallback_path_calls [OF assms] by (simp add: prefix_def)

text \<open>
  C6: on the fallback path \<open>.cpu()\<close> is called on every operand, in order, and then the
  operator is applied to the CPU versions of all of them: each argument is on the CPU and
  has the dtype and the payload of the operand it stands for.
\<close>

theorem fallback_moves_every_operand_to_cpu:
  "(valid_refs w [a, b] \<and> needs_cpu_fallback (device (heap w ! a)) (tensors_of w [a, b]) \<longrightarrow>
      prefix (map CallCpu (tensors_of w [a, b])
                @ [CallNative Matmul (map on_cpu (tensors_of w [a, b]))])
        (new_calls w (mps_matmul K a b w))
    \<and> prefix (map CallCpu (tensors_of w [a, b])
                @ [CallNative Bmm (map on_cpu (tensors_of w [a, b]))])
        (new_calls w (mps_bmm K a b w))
    \<and> prefix (map CallCpu (tensors_of w [a, b])
                @ [CallNative Mm (map on_cpu (tensors_of w [a, b]))])
        (new_calls w (mps_mm K a b w)))
   \<and> (operands \<noteq> [] \<and> valid_refs w operands
        \<and> needs_cpu_fallback (device (heap w ! hd operands)) (tensors_of w operands) \<longrightarrow>
      prefix (map CallCpu (tensors_of w operands)
                @ [CallNative (Einsum equation) (map on_cpu (tensors_of w operands))])
        (new_calls w (mps_einsum K equation operands w)))
   \<and> type (device (on_cpu t)) = ''cpu'' \<and> dtype (on_cpu t) = dtype t \<and> data (on_cpu t) = data t"
  by (simp add: mps_matmul_paths mps_bmm_paths mps_mm_paths mps_einsum_paths
      fallback_path_calls_prefix on_cpu_fields)

theorem fallback_moves_every_operand_to_cpu_witness:
  "[0, 1] \<noteq> ([] :: ref list)
   \<and> valid_refs (world_of [tensor_on mps_device float32 2, tensor_on mps_device complex128 3]) [0, 1]
   \<and> needs_cpu_fallback mps_device
        [tensor_on mps_device float32 2, tensor_on mps_device complex128 3]
   \<and> prefix [CallCpu (tensor_on mps_device float32 2), CallCpu (tensor_on mps_device complex128 3),
              CallNative (Einsum ''ij,jk->ik'')
                [tensor_on cpu_device float32 2, tensor_on cpu_device complex128 3]]
        (new_calls (world_of [tensor_on mps_device float32 2, tensor_on mps_device complex128 3])
           (mps_einsum strict_kernel ''ij,jk->ik'' [0, 1]
              (world_of [tensor_on mps_device float32 2, tensor_on mps_device complex128 3])))"
proof -
  let ?w = "world_of [tensor_on mps_device float32 2, tensor_on mps_device complex128 3]"
  have ne: "[0, 1] \<noteq> ([] :: ref list)" by simp
  have v: "valid_refs ?w [0, 1]" by (rule example_valid)
  have n: "needs_cpu_fallback mps_device
        [tensor_on mps_device float32 2, tensor_on mps_device complex128 3]"
    by (simp add: needs_cpu_fallback_def tensor_on_def mps_device_def)
  have n': "needs_cpu_fallback (device (heap ?w ! hd [0, 1])) (tensors_of ?w [0, 1])"
    using n by (simp add: tensors_of_def world_of_def tensor_on_def)
  from fallback_moves_every_operand_to_cpu
         [of ?w 0 1 strict_kernel "[0, 1]" "''ij,jk->ik''"] ne v n'
  have "prefix (map CallCpu (tensors_of ?w [0, 1])
                @ [CallNative (Einsum ''ij,jk->ik'') (map on_cpu (tensors_of ?w [0, 1]))])
        (new_calls ?w (mps_einsum strict_kernel ''ij,jk->ik'' [0, 1] ?w))"
    by blast
  moreover have "map CallCpu (tensors_of ?w [0, 1])
                @ [CallNative (Einsum ''ij,jk->ik'') (map on_cpu (tensors_of ?w [0, 1]))]
      = [CallCpu (tensor_on mps_device float32 2), CallCpu (tensor_on mps_device complex128 3),
         CallNative (Einsum ''ij,jk->ik'')
           [tensor_on cpu_device float32 2, tensor_on cpu_device complex128 3]]"
    by (simp add: tensors_of_def world_of_def on_cpu_def tensor_on_def mps_device_def cpu_device_def)
  ultimately show ?thesis using ne v n by simp
qed

subsection \<open>Errors\<close>

lemma einsum_no_operands:
  "mps_einsum K equation [] w = (Inl (ValueError ''No operands provided to mps_einsum''), w)"
  by (simp add: mps_einsum_def)

lemma native_no_value_error: "fst (native K f rs w) \<noteq> Inl (ValueError msg)"
  by (simp add: native_fst split: sum.splits)

lemma fallback_path_no_value_error: "fst (fallback_path K f rs w) \<noteq> Inl (ValueError msg)"
proof (cases "fst (native K f (fst (cpu_all rs w)) (snd (cpu_all rs w)))")
  case (Inl e)
  with native_no_value_error [of K f "fst (cpu_all rs w)" "snd (cpu_all rs w)" msg]
  show ?thesis by (simp add: fallback_path_error)
next
  case (Inr r)
  then show ?thesis by (simp add: fallback_path_result)
qed

lemma moved_to_error: "moved_to d x = Inl e \<longleftrightarrow> x = Inl e"
  by (simp add: moved_to_def split: sum.splits)

text \<open>
  C4: \<open>mps_einsum\<close> raises a \<open>ValueError\<close> of its own exactly when it has no operands,
  and then calls nothing; \<open>mps_matmul\<close>, \<open>mps_bmm\<close> and \<open>mps_mm\<close> never raise one.
  No wrapper recovers from a failure: it ends in an error exactly when the operator it
  calls raises, and with that error.
\<close>

theorem one_validation_check:
  "((\<exists>msg. fst (mps_einsum K equation operands w) = Inl (ValueError msg)) \<longleftrightarrow> operands = [])
   \<and> mps_einsum K equation [] w = (Inl (ValueError ''No operands provided to mps_einsum''), w)
   \<and> fst (mps_matmul K a b w) \<noteq> Inl (ValueError msg)
   \<and> fst (mps_bmm K a b w) \<noteq> Inl (ValueError msg)
   \<and> fst (mps_mm K a b w) \<noteq> Inl (ValueError msg)
   \<and> (valid_refs w [a, b] \<longrightarrow>
        (outcome (mps_matmul K a b w) = Inl e \<longleftrightarrow>
           kernel_outcome K Matmul
             (if needs_cpu_fallback (device (heap w ! a)) (tensors_of w [a, b])
              then map on_cpu (tensors_of w [a, b]) else tensors_of w [a, b]) = Inl e)
      \<and> (outcome (mps_bmm K a b w) = Inl e \<longleftrightarrow>
           kernel_outcome K Bmm
             (if needs_cpu_fallback (device (heap w ! a)) (tensors_of w [a, b])
              then map on_cpu (tensors_of w [a, b]) else tensors_of w [a, b]) = Inl e)
      \<and> (outcome (mps_mm K a b w) = Inl e \<longleftrightarrow>
           kernel_outcome K Mm
             (if needs_cpu_fallback (device (heap w ! a)) (tensors_of w [a, b])
              then map on_cpu (tensors_of w [a, b]) else tensors_of w [a, b]) = Inl e))
   \<and> (operands \<noteq> [] \<and> valid_refs w operands \<longrightarrow>
        (outcome (mps_einsum K equation operands w) = Inl e \<longleftrightarrow>
           kernel_outcome K (Einsum equation)
             (if needs_cpu_fallback (device (heap w ! hd operands)) (tensors_of w operands)
              then map on_cpu (tensors_of w operands) else tensors_of w operands) = Inl e))"
proof (intro conjI impI)
  show "(\<exists>msg. fst (mps_einsum K equation operands w) = Inl (ValueError msg)) \<longleftrightarrow> operands = []"
  proof (cases "operands = []")
    case True
    then show ?thesis by (simp add: einsum_no_operands)
  next
    case False
    then show ?thesis
      by (simp add: mps_einsum_paths native_no_value_error fallback_path_no_value_error)
  qed
  show "mps_einsum K equation [] w = (Inl (ValueError ''No operands provided to mps_einsum''), w)"
    by (rule einsum_no_operands)
  show "fst (mps_matmul K a b w) \<noteq> Inl (ValueError msg)"
    by (simp add: mps_matmul_paths native_no_value_error fallback_path_no_value_error)
  show "fst (mps_bmm K a b w) \<noteq> Inl (ValueError msg)"
    by (simp add: mps_bmm_paths native_no_value_error fallback_path_no_value_error)
  show "fst (mps_mm K a b w) \<noteq> Inl (ValueError msg)"
    by (simp add: mps_mm_paths native_no_value_error fallback_path_no_value_error)
next
  assume v: "valid_refs w [a, b]"
  show "outcome (mps_matmul K a b w) = Inl e \<longleftrightarrow>
           kernel_outcome K Matmul
             (if needs_cpu_fallback (device (heap w ! a)) (tensors_of w [a, b])
              then map on_cpu (tensors_of w [a, b]) else tensors_of w [a, b]) = Inl e"
    unfolding mps_matmul_paths wrapper_outcome_binary [OF v] by (simp add: moved_to_error)
  show "outcome (mps_bmm K a b w) = Inl e \<longleftrightarrow>
           kernel_outcome K Bmm
             (if needs_cpu_fallback (device (heap w ! a)) (tensors_of w [a, b])
              then map on_cpu (tensors_of w [a, b]) else tensors_of w [a, b]) = Inl e"
    unfolding mps_bmm_paths wrapper_outcome_binary [OF v] by (simp add: moved_to_error)
  show "outcome (mps_mm K a b w) = Inl e \<longleftrightarrow>
           kernel_outcome K Mm
             (if needs_cpu_fallback (device (heap w ! a)) (tensors_of w [a, b])
              then map on_cpu (tensors_of w [a, b]) else tensors_of w [a, b]) = Inl e"
    unfolding mps_mm_paths wrapper_outcome_binary [OF v] by (simp add: moved_to_error)
next
  assume h: "operands \<noteq> [] \<and> valid_refs w operands"
  then show "outcome (mps_einsum K equation operands w) = Inl e \<longleftrightarrow>
           kernel_outcome K (Einsum equation)
             (if needs_cpu_fallback (device (heap w ! hd operands)) (tensors_of w operands)
              then map on_cpu (tensors_of w operands) else tensors_of w operands) = Inl e"
    by (simp add: wrapper_outcome_einsum moved_to_error)
qed

theorem one_validation_check_witness:
  "[0, 1] \<noteq> ([] :: ref list)
   \<and> valid_refs (world_of [tensor_on cuda_device complex64 2, tensor_on cpu_device complex64 3]) [0, 1]
   \<and> outcome (mps_einsum strict_kernel ''ij,jk->ik'' [0, 1]
        (world_of [tensor_on cuda_device complex64 2, tensor_on cpu_device complex64 3]))
       = Inl (TorchError ''Expected all tensors to be on the same device'')"
proof -
  let ?w = "world_of [tensor_on cuda_device complex64 2, tensor_on cpu_device complex64 3]"
  have ne: "[0, 1] \<noteq> ([] :: ref list)" by simp
  have v: "valid_refs ?w [0, 1]" by (rule example_valid)
  have n: "\<not> needs_cpu_fallback (device (heap ?w ! hd [0, 1])) (tensors_of ?w [0, 1])"
    by (simp add: needs_cpu_fallback_def tensors_of_def world_of_def tensor_on_def cuda_device_def)
  have k: "kernel_outcome strict_kernel (Einsum ''ij,jk->ik'') (tensors_of ?w [0, 1])
      = Inl (TorchError ''Expected all tensors to be on the same device'')"
    by (simp add: kernel_outcome_def strict_kernel_def tensors_of_def world_of_def tensor_on_def
        cuda_device_def cpu_device_def)
  from one_validation_check
         [of strict_kernel "''ij,jk->ik''" "[0, 1]" ?w 0 1 "[]"
             "TorchError ''Expected all tensors to be on the same device''"] ne v
  have "outcome (mps_einsum strict_kernel ''ij,jk->ik'' [0, 1] ?w)
          = Inl (TorchError ''Expected all tensors to be on the same device'') \<longleftrightarrow>
        kernel_outcome strict_kernel (Einsum ''ij,jk->ik'')
          (if needs_cpu_fallback (device (heap ?w ! hd [0, 1])) (tensors_of ?w [0, 1])
           then map on_cpu (tensors_of ?w [0, 1]) else tensors_of ?w [0, 1])
          = Inl (TorchError ''Expected all tensors to be on the same device'')"
    by blast
  with n k have "outcome (mps_einsum strict_kernel ''ij,jk->ik'' [0, 1] ?w)
          = Inl (TorchError ''Expected all tensors to be on the same device'')"
    by simp
  with ne v show ?thesis by simp
qed

subsection \<open>No mutation\<close>

lemma prefix_nth: "prefix xs ys \<Longrightarrow> q < length xs \<Longrightarrow> ys ! q = xs ! q"
  by (auto simp: prefix_def nth_append)

lemma native_frame:
  "(q < length (heap w) \<longrightarrow> heap (snd (native K f rs w)) ! q = heap w ! q)
   \<and> (fst (native K f rs w) = Inr r \<longrightarrow>
        length (heap w) \<le> r \<and> r < length (heap (snd (native K f rs w))))"
  using native_prefix [of w K f rs] native_fresh [of K f rs w r]
  by (auto dest: prefix_nth)

lemma fallback_path_frame:
  "(q < length (heap w) \<longrightarrow> heap (snd (fallback_path K f rs w)) ! q = heap w ! q)
   \<and> (fst (fallback_path K f rs w) = Inr r \<longrightarrow>
        length (heap w) \<le> r \<and> r < length (heap (snd (fallback_path K f rs w))))"
  using fallback_path_prefix [of w K f rs] fallback_path_fresh [of K f rs w r]
  by (auto dest: prefix_nth)

text \<open>
  C10: every tensor object that exists before a wrapper call, the operands among them, is
  the same after it (device, dtype and payload), and a returned tensor is an object that
  did not exist before the call.
\<close>

theorem wrappers_do_not_mutate:
  "(q < length (heap w) \<longrightarrow> heap (snd (mps_matmul K a b w)) ! q = heap w ! q)
   \<and> (fst (mps_matmul K a b w) = Inr r \<longrightarrow>
        length (heap w) \<le> r \<and> r < length (heap (snd (mps_matmul K a b w))))
   \<and> (q < length (heap w) \<longrightarrow> heap (snd (mps_bmm K a b w)) ! q = heap w ! q)
   \<and> (fst (mps_bmm K a b w) = Inr r \<longrightarrow>
        length (heap w) \<le> r \<and> r < length (heap (snd (mps_bmm K a b w))))
   \<and> (q < length (heap w) \<longrightarrow> heap (snd (mps_mm K a b w)) ! q = heap w ! q)
   \<and> (fst (mps_mm K a b w) = Inr r \<longrightarrow>
        length (heap w) \<le> r \<and> r < length (heap (snd (mps_mm K a b w))))
   \<and> (q < length (heap w) \<longrightarrow> heap (snd (mps_einsum K equation operands w)) ! q = heap w ! q)
   \<and> (fst (mps_einsum K equation operands w) = Inr r \<longrightarrow>
        length (heap w) \<le> r \<and> r < length (heap (snd (mps_einsum K equation operands w))))"
proof -
  have m: "(q < length (heap w) \<longrightarrow> heap (snd (mps_matmul K a b w)) ! q = heap w ! q)
   \<and> (fst (mps_matmul K a b w) = Inr r \<longrightarrow>
        length (heap w) \<le> r \<and> r < length (heap (snd (mps_matmul K a b w))))"
    unfolding mps_matmul_paths
    using native_frame [of q w K Matmul "[a, b]" r] fallback_path_frame [of q w K Matmul "[a, b]" r]
    by (simp split: if_splits)
  have b: "(q < length (heap w) \<longrightarrow> heap (snd (mps_bmm K a b w)) ! q = heap w ! q)
   \<and> (fst (mps_bmm K a b w) = Inr r \<longrightarrow>
        length (heap w) \<le> r \<and> r < length (heap (snd (mps_bmm K a b w))))"
    unfolding mps_bmm_paths
    using native_frame [of q w K Bmm "[a, b]" r] fallback_path_frame [of q w K Bmm "[a, b]" r]
    by (simp split: if_splits)
  have mm: "(q < length (heap w) \<longrightarrow> heap (snd (mps_mm K a b w)) ! q = heap w ! q)
   \<and> (fst (mps_mm K a b w) = Inr r \<longrightarrow>
        length (heap w) \<le> r \<and> r < length (heap (snd (mps_mm K a b w))))"
    unfolding mps_mm_paths
    using native_frame [of q w K Mm "[a, b]" r] fallback_path_frame [of q w K Mm "[a, b]" r]
    by (simp split: if_splits)
  have e: "(q < length (heap w) \<longrightarrow> heap (snd (mps_einsum K equation operands w)) ! q = heap w ! q)
   \<and> (fst (mps_einsum K equation operands w) = Inr r \<longrightarrow>
        length (heap w) \<le> r \<and> r < length (heap (snd (mps_einsum K equation operands w))))"
  proof (cases "operands = []")
    case True
    then show ?thesis by (simp add: einsum_no_operands)
  next
    case False
    show ?thesis
      unfolding mps_einsum_paths [OF False]
      using native_frame [of q w K "Einsum equation" operands r]
        fallback_path_frame [of q w K "Einsum equation" operands r]
      by (simp split: if_splits)
  qed
  from m b mm e show ?thesis by blast
qed

theorem wrappers_do_not_mutate_witness:
  "(0::nat) < length (heap (world_of [tensor_on mps_device complex64 2,
                                      tensor_on mps_device complex64 3]))
   \<and> heap (snd (mps_mm strict_kernel 0 1
        (world_of [tensor_on mps_device complex64 2, tensor_on mps_device complex64 3]))) ! 0
       = tensor_on mps_device complex64 2
   \<and> fst (mps_mm strict_kernel 0 1
        (world_of [tensor_on mps_device complex64 2, tensor_on mps_device complex64 3])) = Inr 5
   \<and> length (heap (world_of [tensor_on mps_device complex64 2,
                              tensor_on mps_device complex64 3])) \<le> 5
   \<and> 5 < length (heap (snd (mps_mm strict_kernel 0 1
        (world_of [tensor_on mps_device complex64 2, tensor_on mps_device complex64 3]))))"
proof -
  let ?w = "world_of [tensor_on mps_device complex64 2, tensor_on mps_device complex64 3]"
  have l: "(0::nat) < length (heap ?w)" by (simp add: world_of_def)
  have f: "fst (mps_mm strict_kernel 0 1 ?w) = Inr 5"
    by (simp add: mps_mm_def needs_cpu_fallback_def tensor_cpu_def tensor_to_def native_def
      alloc_def log_call_def strict_kernel_def world_of_def tensor_on_def mps_device_def
      cpu_device_def Let_def)
  from wrappers_do_not_mutate [of 0 ?w strict_kernel 0 1 5 "[]" "[]"] l f
  have "heap (snd (mps_mm strict_kernel 0 1 ?w)) ! 0 = heap ?w ! 0"
    and "length (heap ?w) \<le> 5 \<and> 5 < length (heap (snd (mps_mm strict_kernel 0 1 ?w)))"
    by blast+
  with l f show ?thesis by (simp add: world_of_def)
qed

end
